theory Spec2Isabelle
  imports Complex_Main "HOL-Library.Word"
begin

section \<open>The browser client (frontend/src/App.js)\<close>

subsection \<open>JavaScript strings and values\<close>

text \<open>
  A JavaScript string is a sequence of 16-bit code units. ASCII literals of the source are
  written \<open>js ''...''\<close>.
\<close>

type_synonym jsstring = "16 word list"

definition js :: "string \<Rightarrow> jsstring" where
  "js s = map of_char s"

text \<open>
  \<open>String.prototype.trim\<close> removes the code units of the ECMAScript productions WhiteSpace
  and LineTerminator from both ends of the string.
\<close>

definition isWhiteSpace :: "16 word \<Rightarrow> bool" where
  "isWhiteSpace c = (c \<in> set [0x0009, 0x000A, 0x000B, 0x000C, 0x000D, 0x0020, 0x00A0, 0x1680,
      0x2000, 0x2001, 0x2002, 0x2003, 0x2004, 0x2005, 0x2006, 0x2007, 0x2008, 0x2009, 0x200A,
      0x2028, 0x2029, 0x202F, 0x205F, 0x3000, 0xFEFF])"

definition trim :: "jsstring \<Rightarrow> jsstring" where
  "trim s = rev (dropWhile isWhiteSpace (rev (dropWhile isWhiteSpace s)))"

text \<open>
  The values a response body or a piece of React state can hold. Numbers are kept as the
  exact value of their literal; the handlers modelled here never compute with them.
  An object is the list of its own properties, each name once.
\<close>

datatype jsval =
    JUndefined
  | JNull
  | JBool bool
  | JNum real
  | JStr jsstring
  | JArr "jsval list"
  | JObj "(jsstring \<times> jsval) list"

text \<open>ToBoolean: what \<open>!x\<close>, \<open>x || y\<close> and \<open>x && y\<close> test.\<close>

fun truthy :: "jsval \<Rightarrow> bool" where
  "truthy JUndefined = False"
| "truthy JNull = False"
| "truthy (JBool b) = b"
| "truthy (JNum n) = (n \<noteq> 0)"
| "truthy (JStr s) = (s \<noteq> [])"
| "truthy (JArr xs) = True"
| "truthy (JObj kvs) = True"

text \<open>
  \<open>v?.k\<close> for the data property names the source reads (\<open>detail\<close>, \<open>is_authentic\<close>,
  \<open>file_hash\<close> and the like, none of them a built-in property): the property of an
  object when it has one, \<open>undefined\<close> otherwise, also on \<open>null\<close> and \<open>undefined\<close>.
\<close>

fun getProp :: "jsval \<Rightarrow> jsstring \<Rightarrow> jsval" where
  "getProp (JObj kvs) k = (case map_of kvs k of Some v \<Rightarrow> v | None \<Rightarrow> JUndefined)"
| "getProp v k = JUndefined"

subsection \<open>Requests, errors and effects\<close>

text \<open>
  A selected \<open>File\<close>, the error an axios call rejects with (\<open>response\<close> is the body
  \<open>error.response.data\<close>, absent when the error has no response), and the outcome of
  an awaited axios call.
\<close>

record js_file =
  file_name :: jsstring
  file_mime :: jsstring
  file_bytes :: "8 word list"

record axios_error =
  message :: jsstring
  response :: "jsval option"

datatype outcome = Resolved jsval | Rejected axios_error

datatype body = NoBody | FormData "(jsstring \<times> js_file) list"

text \<open>What a handler does besides updating the component state, in program order.\<close>

datatype effect =
    ConsoleLog "jsval list"
  | ConsoleError jsstring axios_error
  | ToastInfo jsstring
  | ToastSuccess jsstring
  | ToastError jsstring
  | AxiosGet jsstring
  | AxiosPost jsstring body "(jsstring \<times> jsstring) list"

fun is_request :: "effect \<Rightarrow> bool" where
  "is_request (AxiosGet u) = True"
| "is_request (AxiosPost u b hs) = True"
| "is_request e = False"

fun is_post :: "effect \<Rightarrow> bool" where
  "is_post (AxiosPost u b hs) = True"
| "is_post e = False"

fun is_toast :: "effect \<Rightarrow> bool" where
  "is_toast (ToastInfo m) = True"
| "is_toast (ToastSuccess m) = True"
| "is_toast (ToastError m) = True"
| "is_toast e = False"

fun error_toasts :: "effect list \<Rightarrow> jsstring list" where
  "error_toasts [] = []"
| "error_toasts (ToastError m # es) = m # error_toasts es"
| "error_toasts (e # es) = error_toasts es"

subsection \<open>The component state and its handlers\<close>

record app_state =
  activeTab :: jsstring
  uploadedFiles :: jsval
  verifications :: jsval
  loading :: bool
  verifyHash :: jsstring
  verificationResult :: jsval

definition initial_state :: app_state where
  "initial_state = \<lparr>activeTab = js ''upload'', uploadedFiles = JArr [], verifications = JArr [],
     loading = False, verifyHash = [], verificationResult = JNull\<rparr>"

text \<open>
  \<open>API\<close> is \<open>`${BACKEND_URL}/api`\<close>; the environment's \<open>REACT_APP_BACKEND_URL\<close>, as the
  template literal renders it, is the parameter \<open>backend\<close> of every handler.
\<close>

definition API :: "jsstring \<Rightarrow> jsstring" where
  "API backend = backend @ js ''/api''"

definition fetchMedia :: "jsstring \<Rightarrow> outcome \<Rightarrow> app_state \<Rightarrow> app_state \<times> effect list" where
  "fetchMedia backend got s =
     (case got of
        Resolved d \<Rightarrow> (s\<lparr>uploadedFiles := d\<rparr>, [AxiosGet (API backend @ js ''/media'')])
      | Rejected err \<Rightarrow>
          (s, [AxiosGet (API backend @ js ''/media''),
               ConsoleError (js ''Error fetching media:'') err]))"

definition fetchVerifications ::
  "jsstring \<Rightarrow> outcome \<Rightarrow> app_state \<Rightarrow> app_state \<times> effect list" where
  "fetchVerifications backend got s =
     (case got of
        Resolved d \<Rightarrow> (s\<lparr>verifications := d\<rparr>, [AxiosGet (API backend @ js ''/verifications'')])
      | Rejected err \<Rightarrow>
          (s, [AxiosGet (API backend @ js ''/verifications''),
               ConsoleError (js ''Error fetching verifications:'') err]))"

text \<open>
  \<open>error.response?.data?.detail || error.message\<close>, as the string that \<open>"..." + x\<close>
  appends. A detail that is a string is appended as it is. ToString of any other truthy
  value is the parameter \<open>toStr\<close>, \<open>None\<close> when the conversion throws a TypeError.
\<close>

definition error_detail :: "(jsval \<Rightarrow> jsstring option) \<Rightarrow> axios_error \<Rightarrow> jsstring option" where
  "error_detail toStr err =
     (let d = (case response err of None \<Rightarrow> JUndefined | Some dat \<Rightarrow> getProp dat (js ''detail''))
      in if truthy d then (case d of JStr t \<Rightarrow> Some t | _ \<Rightarrow> toStr d)
         else Some (message err))"

text \<open>
  The \<open>catch\<close> block of both handlers: \<open>console.error\<close>, then \<open>toast.error\<close> with the
  handler's prefix before the detail. When the concatenation throws, no toast is shown;
  the \<open>finally\<close> block still runs.
\<close>

definition report_failure ::
  "(jsval \<Rightarrow> jsstring option) \<Rightarrow> jsstring \<Rightarrow> jsstring \<Rightarrow> axios_error \<Rightarrow> effect list" where
  "report_failure toStr label prefix err =
     ConsoleError label err #
       (case error_detail toStr err of
          Some t \<Rightarrow> [ToastError (prefix @ t)]
        | None \<Rightarrow> [])"

text \<open>
  \<open>handleFileUpload\<close>: \<open>files\<close> is \<open>event.target.files\<close>, \<open>posted\<close> the outcome of the
  awaited POST and \<open>got\<close> the outcome of the GET that \<open>fetchMedia\<close> issues.
\<close>

definition handleFileUpload ::
  "jsstring \<Rightarrow> (jsval \<Rightarrow> jsstring option) \<Rightarrow> js_file list \<Rightarrow> outcome \<Rightarrow> outcome \<Rightarrow> app_state
     \<Rightarrow> app_state \<times> effect list" where
  "handleFileUpload backend toStr files posted got s =
     (case files of
        [] \<Rightarrow> (s, [])
      | file # rest \<Rightarrow>
          (let formData = [(js ''file'', file)];
               s1 = s\<lparr>loading := True\<rparr>;
               e1 = [ToastInfo (js ''Uploading and analyzing file...''),
                     AxiosPost (API backend @ js ''/upload'') (FormData formData)
                       [(js ''Content-Type'', js ''multipart/form-data'')]]
           in case posted of
                Resolved d \<Rightarrow>
                  (let (s2, e2) = fetchMedia backend got s1
                   in (s2\<lparr>activeTab := js ''dashboard'', loading := False\<rparr>,
                       e1 @ [ToastSuccess (js ''File uploaded and analyzed successfully!'')] @ e2))
              | Rejected err \<Rightarrow>
                  (s1\<lparr>loading := False\<rparr>,
                   e1 @ report_failure toStr (js ''Upload error:'') (js ''Upload failed: '') err)))"

text \<open>
  \<open>handleHashVerification\<close>: \<open>posted\<close> is the outcome of the awaited POST and \<open>got\<close>
  the outcome of the GET that \<open>fetchVerifications\<close> issues.
\<close>

definition handleHashVerification ::
  "jsstring \<Rightarrow> (jsval \<Rightarrow> jsstring option) \<Rightarrow> outcome \<Rightarrow> outcome \<Rightarrow> app_state
     \<Rightarrow> app_state \<times> effect list" where
  "handleHashVerification backend toStr posted got s =
     (let e0 = [ConsoleLog [JStr (js ''handleHashVerification called with hash:''),
                            JStr (verifyHash s)]]
      in if trim (verifyHash s) = [] then
           (s, e0 @ [ToastError (js ''Please enter a hash to verify'')])
         else
           (let s1 = s\<lparr>loading := True, verificationResult := JNull\<rparr>;
                url = API backend @ js ''/verify/'' @ trim (verifyHash s);
                e1 = e0 @ [ToastInfo (js ''Verifying hash...''),
                           ConsoleLog [JStr (js ''Making API call to:''), JStr url],
                           AxiosPost url NoBody []]
            in case posted of
                 Resolved d \<Rightarrow>
                   (let (s2, e2) = fetchVerifications backend got (s1\<lparr>verificationResult := d\<rparr>)
                    in (s2\<lparr>loading := False\<rparr>,
                        e1 @ [ConsoleLog [JStr (js ''API response:''), d],
                              ToastSuccess (js ''Hash verification complete!'')] @ e2))
               | Rejected err \<Rightarrow>
                   (s1\<lparr>loading := False\<rparr>,
                    e1 @ report_failure toStr (js ''Verification error:'')
                           (js ''Verification failed: '') err)))"

text \<open>The \<open>disabled\<close> attribute of the Verify button.\<close>

definition verifyButtonDisabled :: "app_state \<Rightarrow> bool" where
  "verifyButtonDisabled s = (loading s \<or> trim (verifyHash s) = [])"

text \<open>The \<open>onClick\<close> handler of the Test button.\<close>

definition testResult :: jsval where
  "testResult = JObj [
     (js ''id'', JStr (js ''test-id'')),
     (js ''file_hash'', JStr (js ''test-hash'')),
     (js ''is_authentic'', JBool True),
     (js ''confidence_score'', JNum 0.95),
     (js ''blockchain_verified'', JBool True),
     (js ''analysis_details'', JObj [
        (js ''risk_level'', JStr (js ''low'')),
        (js ''analysis_summary'', JStr (js ''Test result for debugging''))])]"

definition testButtonClick :: "app_state \<Rightarrow> app_state \<times> effect list" where
  "testButtonClick s =
     (s\<lparr>verificationResult := testResult\<rparr>, [ConsoleLog [JStr (js ''Test button clicked'')]])"

subsection \<open>What the component renders\<close>

text \<open>
  A render shows nothing when an expression of the JSX throws while \<open>App\<close> builds its
  element tree (every tab's content is built, whichever tab is active), or when React
  meets a value that it cannot mount as a child. The content of a tab is mounted only while
  that tab is the active one.
\<close>

fun isString :: "jsval \<Rightarrow> bool" where
  "isString (JStr t) = True"
| "isString v = False"

text \<open>
  ToPrimitive, as applied by \<open>x * 100\<close>, \<open>new Date(x)\<close> and the coercion of a \<open>key\<close>,
  returns for every primitive. For an object it throws a TypeError exactly when the object
  has an own property \<open>toString\<close> (which, coming from JSON, is not callable); for an array
  it joins the elements, converting each in the same way.
\<close>

fun toPrimitive_ok :: "jsval \<Rightarrow> bool" where
  "toPrimitive_ok (JObj kvs) = (map_of kvs (js ''toString'') = None)"
| "toPrimitive_ok (JArr xs) = list_all toPrimitive_ok xs"
| "toPrimitive_ok v = True"

text \<open>
  The values React mounts as a child: every primitive, and an array of such values. An
  object is refused with an error.
\<close>

fun validChild :: "jsval \<Rightarrow> bool" where
  "validChild (JObj kvs) = False"
| "validChild (JArr xs) = list_all validChild xs"
| "validChild v = True"

text \<open>
  One row of the Protected Files list (lines 329 to 360) builds when \<open>file\<close> is neither
  \<open>null\<close> nor \<open>undefined\<close>, its \<open>id\<close> can be coerced to a key,
  \<open>file.file_type.startsWith\<close> and \<open>file.file_hash.substring\<close> are called on strings,
  and \<open>new Date(file.upload_timestamp)\<close> can convert its argument.
\<close>

definition fileRowBuilds :: "jsval \<Rightarrow> bool" where
  "fileRowBuilds file =
     (file \<noteq> JNull \<and> file \<noteq> JUndefined
      \<and> toPrimitive_ok (getProp file (js ''id''))
      \<and> isString (getProp file (js ''file_type''))
      \<and> isString (getProp file (js ''file_hash''))
      \<and> toPrimitive_ok (getProp file (js ''upload_timestamp'')))"

text \<open>
  One row of the Recent Verifications list (lines 382 to 407), in the same way:
  \<open>verification.file_hash.substring\<close>, \<open>verification.confidence_score * 100\<close> and
  \<open>new Date(verification.verification_timestamp)\<close>.
\<close>

definition verificationRowBuilds :: "jsval \<Rightarrow> bool" where
  "verificationRowBuilds verification =
     (verification \<noteq> JNull \<and> verification \<noteq> JUndefined
      \<and> toPrimitive_ok (getProp verification (js ''id''))
      \<and> isString (getProp verification (js ''file_hash''))
      \<and> toPrimitive_ok (getProp verification (js ''confidence_score''))
      \<and> toPrimitive_ok (getProp verification (js ''verification_timestamp'')))"

text \<open>\<open>xs.map(row)\<close> throws unless \<open>xs\<close> is an array, and when a row does.\<close>

definition listBuilds :: "(jsval \<Rightarrow> bool) \<Rightarrow> jsval \<Rightarrow> bool" where
  "listBuilds row xs = (case xs of JArr rows \<Rightarrow> list_all row rows | _ \<Rightarrow> False)"

text \<open>
  The verdict card (lines 263 to 310), built when \<open>verificationResult\<close> is truthy:
  \<open>verificationResult.confidence_score * 100\<close> converts its operand, and a truthy
  \<open>analysis_details?.risk_level\<close> has \<open>toUpperCase\<close> called on it, which only a string
  provides. A truthy \<open>analysis_details?.analysis_summary\<close> is mounted as a child.
\<close>

definition cardBuilds :: "jsval \<Rightarrow> bool" where
  "cardBuilds r =
     (let risk_level = getProp (getProp r (js ''analysis_details'')) (js ''risk_level'')
      in toPrimitive_ok (getProp r (js ''confidence_score''))
         \<and> (if truthy risk_level then isString risk_level else True))"

definition cardMounts :: "jsval \<Rightarrow> bool" where
  "cardMounts r =
     (let summary = getProp (getProp r (js ''analysis_details'')) (js ''analysis_summary'')
      in if truthy summary then validChild summary else True)"

text \<open>\<open>App\<close> returns its element tree: no expression of the JSX throws.\<close>

definition appBuilds :: "app_state \<Rightarrow> bool" where
  "appBuilds s =
     (listBuilds fileRowBuilds (uploadedFiles s)
      \<and> listBuilds verificationRowBuilds (verifications s)
      \<and> (if truthy (verificationResult s) then cardBuilds (verificationResult s) else True))"

text \<open>
  The title the verdict card shows: \<open>None\<close> when no card is shown, because the render
  throws, the Verify tab is not the active one, \<open>verificationResult\<close> is falsy or the
  card cannot be mounted.
\<close>

definition verdictTitle :: "app_state \<Rightarrow> jsstring option" where
  "verdictTitle s =
     (if appBuilds s \<and> activeTab s = js ''verify'' \<and> truthy (verificationResult s)
         \<and> cardMounts (verificationResult s)
      then Some (if truthy (getProp (verificationResult s) (js ''is_authentic''))
                 then js ''Authentic Media'' else js ''Suspicious Media'')
      else None)"

subsection \<open>The path of a request\<close>

text \<open>
  The path component of a URL, by the component split of RFC 3986 (appendix B): an optional
  scheme up to the first \<open>:\<close>, an optional authority after \<open>//\<close>, then the path, which
  ends at the first \<open>?\<close> or \<open>#\<close>.
\<close>

definition url_path :: "jsstring \<Rightarrow> jsstring" where
  "url_path u =
     (let p = takeWhile (\<lambda>c. c \<notin> set (js '':/?#'')) u;
          r1 = (if p \<noteq> [] \<and> take 1 (drop (length p) u) = js '':''
                then drop (Suc (length p)) u else u);
          r2 = (if take 2 r1 = js ''//''
                then dropWhile (\<lambda>c. c \<notin> set (js ''/?#'')) (drop 2 r1) else r1)
      in takeWhile (\<lambda>c. c \<notin> set (js ''?#'')) r2)"

fun post_paths :: "effect list \<Rightarrow> jsstring list" where
  "post_paths [] = []"
| "post_paths (AxiosPost u b hs # es) = url_path u # post_paths es"
| "post_paths (e # es) = post_paths es"

text \<open>
  Letters, digits, \<open>-\<close> and \<open>_\<close>: the characters a URL keeps as they are, and that every
  hex digest is made of. An origin is \<open>http://\<close> or \<open>https://\<close> followed by a host made
  of these characters, dots and colons.
\<close>

definition isPlainChar :: "16 word \<Rightarrow> bool" where
  "isPlainChar c =
     (c \<in> set (js ''0123456789abcdefghijklmnopqrstuvwxyzABCDEFGHIJKLMNOPQRSTUVWXYZ-_''))"

definition isHostChar :: "16 word \<Rightarrow> bool" where
  "isHostChar c = (isPlainChar c \<or> c \<in> set (js ''.:''))"

definition isOrigin :: "jsstring \<Rightarrow> bool" where
  "isOrigin b =
     (let host = (if take 7 b = js ''http://'' then drop 7 b
                  else if take 8 b = js ''https://'' then drop 8 b else [])
      in host \<noteq> [] \<and> list_all isHostChar host)"

section \<open>The ledger engine behind the client's API\<close>

text \<open>
  The client calls \<open>POST /api/upload\<close>, \<open>POST /api/verify/{hash}\<close>, \<open>GET /api/media\<close>
  and \<open>GET /api/verifications\<close>; the code that serves them is not among the sources.
  Every definition of this section is therefore written from the specification
  (sections 3, 4 and 7) and says so.
\<close>

subsection \<open>Data model\<close>

text \<open>
  Modelled from the spec: the base types of section 3, which the sources do not declare:
  uploaded content, hex-encoded fingerprints and digests, timestamps, the risk levels and
  the verification statuses.
\<close>

type_synonym bytes = "8 word list"
type_synonym hash = string
type_synonym digest = string
type_synonym timestamp = nat

datatype risk_level = Low | Medium | High

datatype verification_status = Pending | Verified | Flagged

text \<open>Modelled from the spec: the error taxonomy of section 7 and section 4.3.\<close>

datatype engine_error =
    InvalidInput
  | UnsupportedMediaType
  | InvalidHash
  | NotFound
  | ChainCorrupted
  | AnalyzerUnavailable
  | StorageFailure

text \<open>
  Modelled from the spec: the result of the Authenticity Analyzer, which the sources do not
  contain (section 3, \<open>deepfake_analysis\<close>; section 9, \<open>analyze(content) ->
  (risk_level, confidence, summary)\<close>, the confidence being optional by section 4.4).
\<close>

record deepfake_analysis =
  risk :: risk_level
  analysis_summary :: string
  analyzer_confidence :: "real option"

text \<open>Modelled from the spec: MediaRecord of section 3; the sources do not declare it.\<close>

record MediaRecord =
  media_id :: nat
  filename :: string
  file_type :: string
  upload_timestamp :: timestamp
  media_file_hash :: hash
  verification_status :: verification_status
  deepfake_analysis :: deepfake_analysis

text \<open>Modelled from the spec: AnchorEntry of section 3; the sources do not declare it.\<close>

record AnchorEntry =
  sequence_index :: nat
  anchor_file_hash :: hash
  prev_digest :: digest
  entry_digest :: digest
  anchored_at :: timestamp

text \<open>
  Modelled from the spec: the \<open>analysis_details\<close> of a VerificationRecord (section 3 and
  section 4.4): a snapshot of the MediaRecord's analysis, the marker for unknown media, or
  the detail of a detected integrity violation (section 4.2, section 8).
\<close>

datatype analysis_details =
    AnalysisSnapshot risk_level string
  | UnknownMedia
  | ChainCorruptedDetail

text \<open>Modelled from the spec: VerificationRecord of section 3; the sources do not declare it.\<close>

record VerificationRecord =
  verification_id :: nat
  verification_file_hash :: hash
  verification_timestamp :: timestamp
  is_authentic :: bool
  confidence_score :: real
  blockchain_verified :: bool
  analysis_details :: analysis_details

text \<open>
  Modelled from the spec: the persisted state of the Ledger Service (section 2): the media
  records, the Anchor Log and the verification records, each in order of creation.
\<close>

record ledger =
  media_records :: "MediaRecord list"
  anchor_log :: "AnchorEntry list"
  verification_records :: "VerificationRecord list"

text \<open>Modelled from the spec: the ledger before any request.\<close>

definition empty_ledger :: ledger where
  "empty_ledger = \<lparr>media_records = [], anchor_log = [], verification_records = []\<rparr>"

text \<open>
  Modelled from the spec: what each call receives from its surroundings: the identifier and
  the time assigned to what it creates, the analyzer (which may fail with
  \<open>AnalyzerUnavailable\<close>) and whether the persistence layer accepts the write
  (\<open>StorageFailure\<close> otherwise), section 7.
\<close>

record call_env =
  fresh_id :: nat
  now :: timestamp
  analyzer :: "bytes \<Rightarrow> engine_error + deepfake_analysis"
  storage_ok :: bool

subsection \<open>Anchor Log (section 4.2)\<close>

text \<open>
  Modelled from the spec: the cryptographic primitives (section 4.1, section 3) are
  parameters throughout: \<open>fp\<close> is the Fingerprinter and \<open>dg\<close> the digest over
  \<open>(sequence_index, file_hash, prev_digest, anchored_at)\<close>.
\<close>

type_synonym digest_fn = "nat \<Rightarrow> hash \<Rightarrow> digest \<Rightarrow> timestamp \<Rightarrow> digest"

text \<open>Modelled from the spec: the fixed sentinel of the genesis entry (section 3).\<close>

definition genesis_sentinel :: digest where
  "genesis_sentinel = replicate 64 (CHR ''0'')"

text \<open>
  Modelled from the spec: \<open>append\<close> of section 4.2, absent from the sources. It computes
  \<open>sequence_index\<close> as the length of the log, sets \<open>prev_digest\<close> to the previous entry's
  \<open>entry_digest\<close> (the sentinel if the log is empty), computes \<open>entry_digest\<close>, stores
  and returns the entry. A failed write stores nothing.
\<close>

definition append_anchor ::
  "digest_fn \<Rightarrow> timestamp \<Rightarrow> bool \<Rightarrow> hash \<Rightarrow> AnchorEntry list
     \<Rightarrow> (engine_error + AnchorEntry) \<times> AnchorEntry list" where
  "append_anchor dg t ok h alog =
     (if \<not> ok then (Inl StorageFailure, alog)
      else
        (let i = length alog;
             p = (case alog of [] \<Rightarrow> genesis_sentinel | _ \<Rightarrow> entry_digest (last alog));
             e = \<lparr>sequence_index = i, anchor_file_hash = h, prev_digest = p,
                  entry_digest = dg i h p t, anchored_at = t\<rparr>
         in (Inr e, alog @ [e])))"

text \<open>
  Modelled from the spec: a finite sequence of \<open>append\<close> calls, each with its time, the
  answer of the persistence layer and the fingerprint to anchor.
\<close>

fun appends ::
  "digest_fn \<Rightarrow> (timestamp \<times> bool \<times> hash) list \<Rightarrow> AnchorEntry list \<Rightarrow> AnchorEntry list" where
  "appends dg [] alog = alog"
| "appends dg ((t, ok, h) # calls) alog = appends dg calls (snd (append_anchor dg t ok h alog))"

text \<open>
  Modelled from the spec: the digest of an entry recomputed from its stored fields
  (section 3, \<open>entry_digest\<close>).
\<close>

definition recomputed :: "digest_fn \<Rightarrow> AnchorEntry \<Rightarrow> digest" where
  "recomputed dg e = dg (sequence_index e) (anchor_file_hash e) (prev_digest e) (anchored_at e)"

text \<open>
  Modelled from the spec: chain validity (glossary): every entry's stored digest equals the
  digest recomputed from its fields, and its \<open>prev_digest\<close> is the digest of its
  predecessor (the sentinel for the genesis entry).
\<close>

fun chain_valid :: "digest_fn \<Rightarrow> digest \<Rightarrow> AnchorEntry list \<Rightarrow> bool" where
  "chain_valid dg p [] = True"
| "chain_valid dg p (e # es) =
     (prev_digest e = p \<and> entry_digest e = recomputed dg e \<and> chain_valid dg (entry_digest e) es)"

text \<open>Modelled from the spec: the position of the entry that anchors a fingerprint.\<close>

fun locate :: "hash \<Rightarrow> AnchorEntry list \<Rightarrow> nat option" where
  "locate h [] = None"
| "locate h (e # es) =
     (if anchor_file_hash e = h then Some 0 else map_option Suc (locate h es))"

text \<open>
  Modelled from the spec: \<open>verify_chain\<close> of section 4.2, absent from the sources. It
  locates the entry for the fingerprint and recomputes the digests from genesis up to that
  entry; \<open>NotFound\<close> when there is no entry, \<open>ChainCorrupted\<close> when a recomputed digest
  mismatches a stored one, the entry otherwise.
\<close>

definition verify_chain :: "digest_fn \<Rightarrow> AnchorEntry list \<Rightarrow> hash \<Rightarrow> engine_error + AnchorEntry" where
  "verify_chain dg alog h =
     (case locate h alog of
        None \<Rightarrow> Inl NotFound
      | Some i \<Rightarrow>
          if chain_valid dg genesis_sentinel (take (Suc i) alog) then Inr (alog ! i)
          else Inl ChainCorrupted)"

subsection \<open>Ledger Service: ingestion (section 4.3)\<close>

text \<open>Modelled from the spec: a MIME type belongs to a family by its prefix.\<close>

definition starts_with :: "string \<Rightarrow> string \<Rightarrow> bool" where
  "starts_with p s = (take (length p) s = p)"

text \<open>
  Modelled from the spec: the MIME families \<open>submit\<close> accepts (image, video, audio).
\<close>

definition supported_media_type :: "string \<Rightarrow> bool" where
  "supported_media_type ty =
     (starts_with ''image/'' ty \<or> starts_with ''video/'' ty \<or> starts_with ''audio/'' ty)"

text \<open>
  Modelled from the spec: \<open>submit\<close> of section 4.3, absent from the sources. Empty content
  is \<open>InvalidInput\<close> and a MIME type outside the three families
  \<open>UnsupportedMediaType\<close>. Then: (1) fingerprint; (2) an existing MediaRecord for the
  fingerprint is returned as it is; (3) otherwise the analyzer runs; (4) the entry is
  appended and the MediaRecord persisted together, or neither; (5) the status is
  \<open>flagged\<close> for a high risk and \<open>verified\<close> otherwise.
\<close>

definition submit ::
  "(bytes \<Rightarrow> hash) \<Rightarrow> digest_fn \<Rightarrow> call_env \<Rightarrow> bytes \<Rightarrow> string \<Rightarrow> string \<Rightarrow> ledger
     \<Rightarrow> (engine_error + MediaRecord) \<times> ledger" where
  "submit fp dg env content fname ty s =
     (if content = [] then (Inl InvalidInput, s)
      else if \<not> supported_media_type ty then (Inl UnsupportedMediaType, s)
      else
        (let h = fp content
         in case find (\<lambda>m. media_file_hash m = h) (media_records s) of
              Some m \<Rightarrow> (Inr m, s)
            | None \<Rightarrow>
                (case analyzer env content of
                   Inl err \<Rightarrow> (Inl err, s)
                 | Inr a \<Rightarrow>
                     (case append_anchor dg (now env) (storage_ok env) h (anchor_log s) of
                        (Inl err, alog) \<Rightarrow> (Inl err, s)
                      | (Inr e, alog) \<Rightarrow>
                          (let m = \<lparr>media_id = fresh_id env, filename = fname, file_type = ty,
                                    upload_timestamp = now env, media_file_hash = h,
                                    verification_status =
                                      (if risk a = High then Flagged else Verified),
                                    deepfake_analysis = a\<rparr>
                           in (Inr m, s\<lparr>media_records := media_records s @ [m],
                                        anchor_log := alog\<rparr>))))))"

subsection \<open>Ledger Service: verification (section 4.4)\<close>

text \<open>
  Modelled from the spec: a syntactically valid hash is a hex digest of the expected length
  (64 digits for a 256-bit digest).
\<close>

definition is_hex_digit :: "char \<Rightarrow> bool" where
  "is_hex_digit c = (c \<in> set ''0123456789abcdefABCDEF'')"

text \<open>Modelled from the spec: the check that \<open>verify\<close> applies to its input.\<close>

definition valid_hash :: "hash \<Rightarrow> bool" where
  "valid_hash h = (length h = 64 \<and> list_all is_hex_digit h)"

text \<open>
  Modelled from the spec: the verdict for a hash whose chain segment validated (section 4.4,
  step 3): authentic unless the risk is high; the confidence is the analyzer's stored
  confidence, or the value the configurable policy \<open>derive\<close> gives the risk level when
  the analyzer reported none.
\<close>

definition verdict :: "(risk_level \<Rightarrow> real) \<Rightarrow> deepfake_analysis \<Rightarrow> bool \<times> real" where
  "verdict derive a =
     (risk a \<noteq> High,
      (case analyzer_confidence a of Some c \<Rightarrow> c | None \<Rightarrow> derive (risk a)))"

text \<open>
  Modelled from the spec: \<open>verify\<close> of section 4.4, absent from the sources. A malformed
  hash is \<open>InvalidHash\<close>. Otherwise the result of \<open>verify_chain\<close> decides the record:
  not found gives the unknown-media record; a corrupted chain gives the integrity-violation
  record; a valid chain gives the verdict over the matching MediaRecord's analysis. The
  record is persisted and returned.
\<close>

definition verify ::
  "digest_fn \<Rightarrow> (risk_level \<Rightarrow> real) \<Rightarrow> call_env \<Rightarrow> hash \<Rightarrow> ledger
     \<Rightarrow> (engine_error + VerificationRecord) \<times> ledger" where
  "verify dg derive env h s =
     (if \<not> valid_hash h then (Inl InvalidHash, s)
      else
        (let blank = \<lparr>verification_id = fresh_id env, verification_file_hash = h,
                      verification_timestamp = now env, is_authentic = False,
                      confidence_score = 0, blockchain_verified = False,
                      analysis_details = UnknownMedia\<rparr>;
             r = (case verify_chain dg (anchor_log s) h of
                    Inl ChainCorrupted \<Rightarrow> blank\<lparr>analysis_details := ChainCorruptedDetail\<rparr>
                  | Inl err \<Rightarrow> blank
                  | Inr e \<Rightarrow>
                      (case find (\<lambda>m. media_file_hash m = h) (media_records s) of
                         None \<Rightarrow> blank\<lparr>blockchain_verified := True\<rparr>
                       | Some m \<Rightarrow>
                           blank\<lparr>is_authentic := fst (verdict derive (deepfake_analysis m)),
                                 confidence_score := snd (verdict derive (deepfake_analysis m)),
                                 blockchain_verified := True,
                                 analysis_details :=
                                   AnalysisSnapshot (risk (deepfake_analysis m))
                                     (analysis_summary (deepfake_analysis m))\<rparr>))
         in (Inr r, s\<lparr>verification_records := verification_records s @ [r]\<rparr>)))"

text \<open>Modelled from the spec: the requests the Ledger Service serves (section 2).\<close>

datatype request = Submit call_env bytes string string | Verify call_env hash

text \<open>
  Modelled from the spec: the effect of one request on the ledger; a request that fails
  leaves the ledger as it was (section 7).
\<close>

fun step :: "(bytes \<Rightarrow> hash) \<Rightarrow> digest_fn \<Rightarrow> (risk_level \<Rightarrow> real) \<Rightarrow> request \<Rightarrow> ledger \<Rightarrow> ledger" where
  "step fp dg derive (Submit env content fname ty) s = snd (submit fp dg env content fname ty s)"
| "step fp dg derive (Verify env h) s = snd (verify dg derive env h s)"

text \<open>Modelled from the spec: the requests of a list served one after the other.\<close>

fun run :: "(bytes \<Rightarrow> hash) \<Rightarrow> digest_fn \<Rightarrow> (risk_level \<Rightarrow> real) \<Rightarrow> request list \<Rightarrow> ledger \<Rightarrow> ledger" where
  "run fp dg derive [] s = s"
| "run fp dg derive (r # rs) s = run fp dg derive rs (step fp dg derive r s)"

text \<open>
  Modelled from the spec: the fingerprint a \<open>submit\<close> ingested: that of the MediaRecord it
  returned, none when it failed.
\<close>

definition accepted :: "engine_error + MediaRecord \<Rightarrow> hash list" where
  "accepted res = (case res of Inr m \<Rightarrow> [media_file_hash m] | Inl err \<Rightarrow> [])"

text \<open>
  Modelled from the spec: the fingerprints ingested through \<open>submit\<close> while a list of
  requests is served from ledger \<open>s\<close>.
\<close>

fun ingested ::
  "(bytes \<Rightarrow> hash) \<Rightarrow> digest_fn \<Rightarrow> (risk_level \<Rightarrow> real) \<Rightarrow> request list \<Rightarrow> ledger \<Rightarrow> hash list" where
  "ingested fp dg derive [] s = []"
| "ingested fp dg derive (Submit env content fname ty # rs) s =
     accepted (fst (submit fp dg env content fname ty s))
       @ ingested fp dg derive rs (snd (submit fp dg env content fname ty s))"
| "ingested fp dg derive (Verify env h # rs) s =
     ingested fp dg derive rs (snd (verify dg derive env h s))"

subsection \<open>Invariants of the ledger\<close>

text \<open>Modelled from the spec: the indices of a log are its positions (section 3).\<close>

definition indexed :: "AnchorEntry list \<Rightarrow> bool" where
  "indexed alog = (map sequence_index alog = [0..<length alog])"

text \<open>
  Modelled from the spec: media records and anchor entries are created together, one pair
  per fingerprint (section 3, invariants and lifecycle).
\<close>

definition paired :: "ledger \<Rightarrow> bool" where
  "paired s = (map media_file_hash (media_records s) = map anchor_file_hash (anchor_log s)
     \<and> distinct (map anchor_file_hash (anchor_log s)))"

section \<open>Sample inputs\<close>

text \<open>Concrete inputs at which the theorems below are instantiated.\<close>

definition sample_backend :: jsstring where
  "sample_backend = js ''http://localhost:8001''"

definition sample_toString :: "jsval \<Rightarrow> jsstring option" where
  "sample_toString v = Some (js ''[object Object]'')"

definition sample_file :: js_file where
  "sample_file = \<lparr>file_name = js ''cat.png'', file_mime = js ''image/png'',
     file_bytes = [137, 80, 78, 71]\<rparr>"

definition sample_error :: axios_error where
  "sample_error = \<lparr>message = js ''Request failed with status code 415'',
     response = Some (JObj [(js ''detail'', JStr (js ''Unsupported media type''))])\<rparr>"

definition sample_state :: app_state where
  "sample_state = initial_state\<lparr>activeTab := js ''verify'', verifyHash := js '' ab12 ''\<rparr>"

definition blank_state :: app_state where
  "blank_state = initial_state\<lparr>activeTab := js ''verify'',
     verifyHash := [0x0020, 0x0009, 0x3000]\<rparr>"

definition query_state :: app_state where
  "query_state = initial_state\<lparr>activeTab := js ''verify'', verifyHash := js ''ab12?x=1''\<rparr>"

definition sample_verification :: jsval where
  "sample_verification = JObj [
     (js ''id'', JStr (js ''v-1'')),
     (js ''file_hash'', JStr (js ''ab12'')),
     (js ''is_authentic'', JBool False),
     (js ''confidence_score'', JNum 0),
     (js ''blockchain_verified'', JBool False),
     (js ''analysis_details'', JObj [
        (js ''risk_level'', JStr (js ''high'')),
        (js ''analysis_summary'', JStr (js ''unknown media''))])]"

definition list_risk_verification :: jsval where
  "list_risk_verification = JObj [
     (js ''id'', JStr (js ''v-2'')),
     (js ''file_hash'', JStr (js ''ab12'')),
     (js ''is_authentic'', JBool True),
     (js ''confidence_score'', JNum 0.9),
     (js ''blockchain_verified'', JBool True),
     (js ''analysis_details'', JObj [(js ''risk_level'', JArr [JStr (js ''low'')])])]"

definition error_body :: jsval where
  "error_body = JObj [(js ''detail'', JStr (js ''Not Found''))]"

definition sample_fp :: "bytes \<Rightarrow> hash" where
  "sample_fp b = replicate 64 (if even (length b) then CHR ''a'' else CHR ''b'')"

definition sample_dg :: digest_fn where
  "sample_dg i h p t = h"

definition sample_derive :: "risk_level \<Rightarrow> real" where
  "sample_derive r = (case r of Low \<Rightarrow> 0.9 | Medium \<Rightarrow> 0.5 | High \<Rightarrow> 0)"

definition sample_analysis :: deepfake_analysis where
  "sample_analysis = \<lparr>risk = Low, analysis_summary = ''no manipulation found'',
     analyzer_confidence = Some 0.95\<rparr>"

definition sample_analyzer :: "bytes \<Rightarrow> engine_error + deepfake_analysis" where
  "sample_analyzer b = Inr sample_analysis"

definition failing_analyzer :: "bytes \<Rightarrow> engine_error + deepfake_analysis" where
  "failing_analyzer b = Inl AnalyzerUnavailable"

definition sample_env :: call_env where
  "sample_env = \<lparr>fresh_id = 1, now = 100, analyzer = sample_analyzer, storage_ok = True\<rparr>"

definition failing_env :: call_env where
  "failing_env = \<lparr>fresh_id = 2, now = 200, analyzer = failing_analyzer, storage_ok = False\<rparr>"

definition sample_content :: bytes where
  "sample_content = [137, 80, 78, 71]"

definition sample_hash :: hash where
  "sample_hash = replicate 64 (CHR ''a'')"

definition unknown_hash :: hash where
  "unknown_hash = replicate 64 (CHR ''c'')"

definition sample_calls :: "(timestamp \<times> bool \<times> hash) list" where
  "sample_calls = [(100, True, sample_hash), (150, False, unknown_hash), (200, True, unknown_hash)]"

definition other_content :: bytes where
  "other_content = [1, 2, 3]"

definition failed_requests :: "request list" where
  "failed_requests = [Submit failing_env sample_content ''cat.png'' ''image/png'',
     Submit sample_env other_content ''dog.png'' ''image/png'']"

definition sample_requests :: "request list" where
  "sample_requests = [Submit sample_env sample_content ''cat.png'' ''image/png'']"

definition sample_media :: MediaRecord where
  "sample_media = \<lparr>media_id = 1, filename = ''cat.png'', file_type = ''image/png'',
     upload_timestamp = 100, media_file_hash = sample_hash, verification_status = Verified,
     deepfake_analysis = sample_analysis\<rparr>"

definition sample_anchor :: AnchorEntry where
  "sample_anchor = \<lparr>sequence_index = 0, anchor_file_hash = sample_hash,
     prev_digest = genesis_sentinel, entry_digest = sample_hash, anchored_at = 100\<rparr>"

definition sample_ledger :: ledger where
  "sample_ledger = \<lparr>media_records = [sample_media], anchor_log = [sample_anchor],
     verification_records = []\<rparr>"

definition tampered_log :: "AnchorEntry list" where
  "tampered_log = [sample_anchor\<lparr>entry_digest := genesis_sentinel\<rparr>]"

definition tampered_ledger :: ledger where
  "tampered_ledger = sample_ledger\<lparr>anchor_log := tampered_log\<rparr>"

definition empty_detail_error :: axios_error where
  "empty_detail_error = \<lparr>message = js ''Request failed with status code 500'',
     response = Some (JObj [(js ''detail'', JStr [])])\<rparr>"

section \<open>Properties of the ledger engine\<close>

subsection \<open>Anchor Log\<close>

lemma append_anchor_indexed:
  "indexed alog \<Longrightarrow> indexed (snd (append_anchor dg t ok h alog))"
  by (simp add: indexed_def append_anchor_def Let_def)

lemma appends_indexed: "indexed alog \<Longrightarrow> indexed (appends dg calls alog)"
proof (induction calls arbitrary: alog)
  case Nil
  then show ?case by simp
next
  case (Cons c calls)
  obtain t ok h where c: "c = (t, ok, h)" by (cases c)
  from Cons.prems have "indexed (snd (append_anchor dg t ok h alog))"
    by (rule append_anchor_indexed)
  then show ?case unfolding c by (simp add: Cons.IH)
qed

text \<open>\<open>submit\<close> changes the Anchor Log by one \<open>append\<close> for the fingerprint, or not at all.\<close>

lemma submit_anchor_log:
  "anchor_log (snd (submit fp dg env content fname ty s)) = anchor_log s
   \<or> anchor_log (snd (submit fp dg env content fname ty s))
         = snd (append_anchor dg (now env) (storage_ok env) (fp content) (anchor_log s))"
  by (simp add: submit_def Let_def split: option.splits sum.splits prod.splits)

lemma verify_frame:
  "media_records (snd (verify dg derive env h s)) = media_records s
   \<and> anchor_log (snd (verify dg derive env h s)) = anchor_log s"
  by (simp add: verify_def Let_def)

lemma step_indexed: "indexed (anchor_log s) \<Longrightarrow> indexed (anchor_log (step fp dg derive r s))"
proof (cases r)
  case (Submit env content fname ty)
  assume "indexed (anchor_log s)"
  then show ?thesis
    using submit_anchor_log [of fp dg env content fname ty s] append_anchor_indexed
    unfolding Submit by auto
next
  case (Verify env h)
  assume "indexed (anchor_log s)"
  then show ?thesis unfolding Verify by (simp add: verify_frame)
qed

lemma run_indexed: "indexed (anchor_log s) \<Longrightarrow> indexed (anchor_log (run fp dg derive rs s))"
  by (induction rs arbitrary: s) (simp_all add: step_indexed)

text \<open>
  Claim C1. After any finite sequence of \<open>append\<close> calls on the empty log, the stored
  \<open>sequence_index\<close> values are exactly \<open>0..n-1\<close> for the \<open>n\<close> entries of the log, in
  order: unique, gapless and strictly increasing from 0. The same holds for the Anchor Log
  of every ledger the service reaches from the empty one.
\<close>

theorem sequence_index_contiguous:
  "map sequence_index (appends dg calls []) = [0..<length (appends dg calls [])]
   \<and> distinct (map sequence_index (appends dg calls []))
   \<and> sorted_wrt (<) (map sequence_index (appends dg calls []))
   \<and> map sequence_index (anchor_log (run fp dg derive rs empty_ledger))
       = [0..<length (anchor_log (run fp dg derive rs empty_ledger))]"
proof -
  have a: "indexed (appends dg calls [])"
    by (rule appends_indexed) (simp add: indexed_def)
  have b: "indexed (anchor_log (run fp dg derive rs empty_ledger))"
    by (rule run_indexed) (simp add: indexed_def empty_ledger_def)
  have c: "distinct [0..<n] \<and> sorted_wrt (<) [0..<n]" for n :: nat
    by (simp add: sorted_wrt_upt)
  from a b c [of "length (appends dg calls [])"] show ?thesis
    by (simp add: indexed_def)
qed

theorem sequence_index_contiguous_witness:
  "length (appends sample_dg sample_calls []) = 2
   \<and> map sequence_index (appends sample_dg sample_calls []) = [0, 1]"
proof -
  have len: "length (appends sample_dg sample_calls []) = 2"
    by (simp add: sample_calls_def append_anchor_def Let_def)
  have "map sequence_index (appends sample_dg sample_calls [])
          = [0..<length (appends sample_dg sample_calls [])]"
    using sequence_index_contiguous [of sample_dg sample_calls] by (rule conjunct1)
  then have "map sequence_index (appends sample_dg sample_calls []) = [0..<2]"
    by (simp only: len)
  then show ?thesis using len by (simp add: upt_rec)
qed

subsection \<open>Ingestion\<close>

lemma find_None_hashes:
  "find (\<lambda>m. media_file_hash m = h) ms = None \<longleftrightarrow> h \<notin> set (map media_file_hash ms)"
  by (induction ms) auto

lemma submit_paired: "paired s \<Longrightarrow> paired (snd (submit fp dg env content fname ty s))"
  by (auto simp: paired_def submit_def Let_def append_anchor_def find_None_hashes
      split: option.splits sum.splits prod.splits if_splits)

lemma verify_paired: "paired s \<Longrightarrow> paired (snd (verify dg derive env h s))"
  by (simp add: paired_def verify_frame)

lemma step_paired: "paired s \<Longrightarrow> paired (step fp dg derive r s)"
  by (cases r) (simp_all add: submit_paired verify_paired)

lemma run_paired: "paired s \<Longrightarrow> paired (run fp dg derive rs s)"
  by (induction rs arbitrary: s) (simp_all add: step_paired)

lemma distinct_filter_le_1:
  "distinct (map f xs) \<Longrightarrow> length (filter (\<lambda>x. f x = v) xs) \<le> 1"
proof (induction xs)
  case Nil
  then show ?case by simp
next
  case (Cons x xs)
  show ?case
  proof (cases "f x = v")
    case True
    with Cons.prems have "v \<notin> f ` set xs" by auto
    then have "filter (\<lambda>x. f x = v) xs = []"
      by (auto simp: filter_empty_conv)
    with True show ?thesis by simp
  next
    case False
    with Cons show ?thesis by simp
  qed
qed

text \<open>No reachable ledger anchors a fingerprint twice.\<close>

lemma anchors_unique:
  "length (filter (\<lambda>e. anchor_file_hash e = h) (anchor_log (run fp dg derive rs empty_ledger)))
     \<le> 1"
proof -
  have "paired (run fp dg derive rs empty_ledger)"
    by (rule run_paired) (simp add: paired_def empty_ledger_def)
  then have "distinct (map anchor_file_hash (anchor_log (run fp dg derive rs empty_ledger)))"
    by (simp add: paired_def)
  then show ?thesis by (rule distinct_filter_le_1)
qed

lemma find_append_last:
  "find P xs = None \<Longrightarrow> P m \<Longrightarrow> find P (xs @ [m]) = Some m"
  by (induction xs) (auto split: if_splits)

text \<open>
  A second \<open>submit\<close> of content that was just submitted successfully returns the same
  record and changes nothing, whatever its analyzer and storage would have answered.
\<close>

lemma submit_again:
  assumes "submit fp dg env1 content fn1 ty1 s = (Inr r1, s1)"
      and "supported_media_type ty2"
  shows "submit fp dg env2 content fn2 ty2 s1 = (Inr r1, s1) \<and> media_file_hash r1 = fp content"
proof (cases "find (\<lambda>m. media_file_hash m = fp content) (media_records s)")
  case (Some m)
  with assms(1) have e: "r1 = m" "s1 = s" "content \<noteq> []"
    by (auto simp: submit_def Let_def split: if_splits)
  from Some have "media_file_hash m = fp content"
    by (auto dest: find_Some_iff [THEN iffD1])
  with Some e assms(2) show ?thesis
    by (simp add: submit_def Let_def)
next
  case None
  with assms(1) obtain a e alog where
      c: "content \<noteq> []"
    and r: "r1 = \<lparr>media_id = fresh_id env1, filename = fn1, file_type = ty1,
                 upload_timestamp = now env1, media_file_hash = fp content,
                 verification_status = (if risk a = High then Flagged else Verified),
                 deepfake_analysis = a\<rparr>"
    and s: "s1 = s\<lparr>media_records := media_records s @ [r1], anchor_log := alog\<rparr>"
    by (auto simp: submit_def Let_def split: if_splits sum.splits prod.splits)
  from r have h: "media_file_hash r1 = fp content" by simp
  from None h have "find (\<lambda>m. media_file_hash m = fp content) (media_records s @ [r1]) = Some r1"
    by (rule find_append_last)
  with c s h assms(2) show ?thesis
    by (simp add: submit_def Let_def)
qed

lemma sample_run: "run sample_fp sample_dg sample_derive sample_requests empty_ledger = sample_ledger"
  by (simp add: sample_requests_def submit_def Let_def empty_ledger_def sample_ledger_def
      sample_env_def sample_content_def sample_fp_def sample_dg_def sample_analyzer_def
      sample_media_def sample_anchor_def sample_hash_def sample_analysis_def
      append_anchor_def supported_media_type_def starts_with_def)

text \<open>
  Claim C2. In any ledger the service reaches, when \<open>submit\<close> of content \<open>b\<close> succeeds, a
  second \<open>submit\<close> of \<open>b\<close> (under any file name and any supported MIME type) returns the
  same MediaRecord, whose \<open>file_hash\<close> is the fingerprint of \<open>b\<close>, and leaves the ledger
  as it is, whatever the analyzer and the storage of the second call would answer; the
  Anchor Log holds at most one entry for that fingerprint.
\<close>

theorem submit_idempotent:
  assumes "submit fp dg env1 content fn1 ty1 (run fp dg derive rs empty_ledger) = (Inr r1, s1)"
      and "supported_media_type ty2"
  shows "submit fp dg env2 content fn2 ty2 s1 = (Inr r1, s1)
       \<and> media_file_hash r1 = fp content
       \<and> length (filter (\<lambda>e. anchor_file_hash e = fp content) (anchor_log s1)) \<le> 1"
proof -
  have "paired (run fp dg derive rs empty_ledger)"
    by (rule run_paired) (simp add: paired_def empty_ledger_def)
  then have "paired (snd (submit fp dg env1 content fn1 ty1 (run fp dg derive rs empty_ledger)))"
    by (rule submit_paired)
  with assms(1) have "distinct (map anchor_file_hash (anchor_log s1))"
    by (simp add: paired_def)
  then have "length (filter (\<lambda>e. anchor_file_hash e = fp content) (anchor_log s1)) \<le> 1"
    by (rule distinct_filter_le_1)
  with submit_again [OF assms] show ?thesis by simp
qed

theorem submit_idempotent_witness:
  "submit sample_fp sample_dg sample_env sample_content ''cat.png'' ''image/png''
      (run sample_fp sample_dg sample_derive sample_requests empty_ledger)
     = (Inr sample_media, sample_ledger)
   \<and> supported_media_type ''image/jpeg''
   \<and> submit sample_fp sample_dg failing_env sample_content ''copy.jpg'' ''image/jpeg''
       sample_ledger = (Inr sample_media, sample_ledger)
   \<and> media_file_hash sample_media = sample_fp sample_content
   \<and> length (filter (\<lambda>e. anchor_file_hash e = sample_fp sample_content)
        (anchor_log sample_ledger)) \<le> 1"
proof -
  have a: "submit sample_fp sample_dg sample_env sample_content ''cat.png'' ''image/png''
             (run sample_fp sample_dg sample_derive sample_requests empty_ledger)
           = (Inr sample_media, sample_ledger)"
    unfolding sample_run
    by (simp add: submit_def Let_def sample_ledger_def sample_content_def sample_fp_def
        sample_media_def sample_hash_def supported_media_type_def starts_with_def)
  have b: "supported_media_type ''image/jpeg''"
    by (simp add: supported_media_type_def starts_with_def)
  from submit_idempotent [where ?env2.0 = failing_env and ?fn2.0 = "''copy.jpg''", OF a b] a b
  show ?thesis by simp
qed

subsection \<open>Tamper detection\<close>

lemma chain_valid_nth:
  "chain_valid dg p es \<Longrightarrow> j < length es \<Longrightarrow> entry_digest (es ! j) = recomputed dg (es ! j)"
proof (induction es arbitrary: p j)
  case Nil
  then show ?case by simp
next
  case (Cons e es)
  then show ?case by (cases j) auto
qed

lemma locate_Some_less: "locate h alog = Some i \<Longrightarrow> i < length alog"
  by (induction alog arbitrary: i) (auto split: if_splits)

lemma locate_None_iff: "locate h alog = None \<longleftrightarrow> h \<notin> set (map anchor_file_hash alog)"
  by (induction alog) auto

lemma mismatch_breaks_chain:
  assumes "locate h alog = Some i" and "j \<le> i"
      and "entry_digest (alog ! j) \<noteq> recomputed dg (alog ! j)"
  shows "\<not> chain_valid dg genesis_sentinel (take (Suc i) alog)"
proof
  assume v: "chain_valid dg genesis_sentinel (take (Suc i) alog)"
  from assms(1) have "i < length alog" by (rule locate_Some_less)
  with assms(2) have "j < length (take (Suc i) alog)" by simp
  with v have "entry_digest (take (Suc i) alog ! j) = recomputed dg (take (Suc i) alog ! j)"
    by (rule chain_valid_nth)
  with assms(2,3) show False by simp
qed

lemma valid_hash_replicate: "is_hex_digit c \<Longrightarrow> valid_hash (replicate 64 c)"
  by (simp add: valid_hash_def list_all_iff)

lemma valid_sample_hash: "valid_hash sample_hash"
  unfolding sample_hash_def by (rule valid_hash_replicate) (simp add: is_hex_digit_def)

lemma valid_unknown_hash: "valid_hash unknown_hash"
  unfolding unknown_hash_def by (rule valid_hash_replicate) (simp add: is_hex_digit_def)

text \<open>
  Claim C3. When \<open>verify_chain\<close> finds the entry for a hash at position \<open>i\<close> and the
  digest recomputed for some entry \<open>j \<le> i\<close> differs from the stored one, its outcome is
  \<open>ChainCorrupted\<close>, never \<open>NotFound\<close>; \<open>verify\<close> of a well-formed hash on a ledger
  with that log then persists a record with \<open>blockchain_verified = false\<close> whose detail
  is the integrity violation, distinct from the marker of unknown media.
\<close>

theorem chain_corrupted_distinct:
  assumes "locate h alog = Some i" and "j \<le> i"
      and "entry_digest (alog ! j) \<noteq> recomputed dg (alog ! j)"
  shows "verify_chain dg alog h = Inl ChainCorrupted
       \<and> verify_chain dg alog h \<noteq> Inl NotFound
       \<and> (valid_hash h \<and> anchor_log s = alog \<longrightarrow>
            (\<exists>r. verify dg derive env h s
                   = (Inr r, s\<lparr>verification_records := verification_records s @ [r]\<rparr>)
                 \<and> \<not> blockchain_verified r \<and> \<not> is_authentic r \<and> confidence_score r = 0
                 \<and> analysis_details r = ChainCorruptedDetail
                 \<and> analysis_details r \<noteq> UnknownMedia))"
proof -
  have c: "verify_chain dg alog h = Inl ChainCorrupted"
    using assms(1) mismatch_breaks_chain [OF assms] by (simp add: verify_chain_def)
  then show ?thesis
    by (simp add: verify_def Let_def)
qed

theorem chain_corrupted_distinct_witness:
  "locate sample_hash tampered_log = Some 0
   \<and> entry_digest (tampered_log ! 0) \<noteq> recomputed sample_dg (tampered_log ! 0)
   \<and> valid_hash sample_hash
   \<and> anchor_log tampered_ledger = tampered_log
   \<and> verify_chain sample_dg tampered_log sample_hash = Inl ChainCorrupted
   \<and> (\<exists>r. verify sample_dg sample_derive sample_env sample_hash tampered_ledger
            = (Inr r, tampered_ledger
                 \<lparr>verification_records := verification_records tampered_ledger @ [r]\<rparr>)
          \<and> \<not> blockchain_verified r
          \<and> analysis_details r = ChainCorruptedDetail)"
proof -
  have a: "locate sample_hash tampered_log = Some 0"
    by (simp add: tampered_log_def sample_anchor_def)
  have b: "(0::nat) \<le> 0" by simp
  have c: "entry_digest (tampered_log ! 0) \<noteq> recomputed sample_dg (tampered_log ! 0)"
    by (simp add: tampered_log_def sample_anchor_def recomputed_def sample_dg_def
        genesis_sentinel_def sample_hash_def)
  have d: "anchor_log tampered_ledger = tampered_log"
    by (simp add: tampered_ledger_def)
  from chain_corrupted_distinct [OF a b c, of tampered_ledger sample_derive sample_env]
    a c d valid_sample_hash
  show ?thesis by blast
qed

subsection \<open>Verification\<close>

text \<open>
  \<open>submit\<close> anchors nothing but the fingerprint of the record it returns, and nothing when
  it fails.
\<close>

lemma submit_hashes:
  "set (map anchor_file_hash (anchor_log (snd (submit fp dg env content fname ty s))))
     \<subseteq> set (map anchor_file_hash (anchor_log s))
         \<union> set (accepted (fst (submit fp dg env content fname ty s)))"
  by (auto simp: submit_def accepted_def append_anchor_def Let_def
      split: option.splits sum.splits if_splits)

text \<open>Every fingerprint in the Anchor Log was there before or has been ingested.\<close>

lemma run_hashes:
  "set (map anchor_file_hash (anchor_log (run fp dg derive rs s)))
     \<subseteq> set (map anchor_file_hash (anchor_log s)) \<union> set (ingested fp dg derive rs s)"
proof (induction rs arbitrary: s)
  case Nil
  then show ?case by simp
next
  case (Cons r rs)
  show ?case
  proof (cases r)
    case (Submit env content fname ty)
    with Cons [of "snd (submit fp dg env content fname ty s)"]
      submit_hashes [of fp dg env content fname ty s]
    show ?thesis by auto
  next
    case (Verify env h)
    with Cons [of "snd (verify dg derive env h s)"] show ?thesis
      by (simp add: verify_frame)
  qed
qed

text \<open>
  In any ledger, \<open>verify\<close> of a well-formed hash that the Anchor Log does not hold returns
  and persists the record of unknown media.
\<close>

lemma verify_not_anchored:
  assumes "valid_hash h" and "h \<notin> set (map anchor_file_hash (anchor_log s))"
  shows "\<exists>r. verify dg derive env h s
              = (Inr r, s\<lparr>verification_records := verification_records s @ [r]\<rparr>)
           \<and> \<not> is_authentic r \<and> \<not> blockchain_verified r \<and> confidence_score r = 0
           \<and> analysis_details r = UnknownMedia"
proof -
  from assms(2) have "verify_chain dg (anchor_log s) h = Inl NotFound"
    by (simp add: verify_chain_def locate_None_iff [THEN iffD2])
  with assms(1) show ?thesis
    by (simp add: verify_def Let_def)
qed

text \<open>
  Claim C4. For a well-formed hash that was never ingested through \<open>submit\<close> (no
  \<open>submit\<close> of the run returned a record with that fingerprint; submissions that were
  rejected or aborted do not count), \<open>verify\<close> returns, and appends to the verification
  records, a record with \<open>is_authentic = false\<close>, \<open>blockchain_verified = false\<close>,
  \<open>confidence_score = 0\<close> and analysis details marked as unknown media; it does not fail.
\<close>

theorem verify_never_submitted:
  assumes "valid_hash h" and "h \<notin> set (ingested fp dg derive rs empty_ledger)"
  shows "\<exists>r. verify dg derive env h (run fp dg derive rs empty_ledger)
              = (Inr r, (run fp dg derive rs empty_ledger)
                   \<lparr>verification_records :=
                      verification_records (run fp dg derive rs empty_ledger) @ [r]\<rparr>)
           \<and> \<not> is_authentic r \<and> \<not> blockchain_verified r \<and> confidence_score r = 0
           \<and> analysis_details r = UnknownMedia"
proof -
  have "h \<notin> set (map anchor_file_hash (anchor_log (run fp dg derive rs empty_ledger)))"
    using run_hashes [of fp dg derive rs empty_ledger] assms(2)
    by (auto simp: empty_ledger_def)
  with assms(1) show ?thesis by (rule verify_not_anchored)
qed

lemma failed_run_ingested:
  "ingested sample_fp sample_dg sample_derive failed_requests empty_ledger
     = [replicate 64 (CHR ''b'')]"
  by (simp add: failed_requests_def submit_def accepted_def Let_def empty_ledger_def
      failing_env_def failing_analyzer_def sample_env_def sample_analyzer_def
      sample_content_def other_content_def sample_fp_def append_anchor_def
      supported_media_type_def starts_with_def)

theorem verify_never_submitted_witness:
  "valid_hash sample_hash
   \<and> sample_hash = sample_fp sample_content
   \<and> sample_hash \<notin> set (ingested sample_fp sample_dg sample_derive failed_requests empty_ledger)
   \<and> (\<exists>r. verify sample_dg sample_derive sample_env sample_hash
              (run sample_fp sample_dg sample_derive failed_requests empty_ledger)
            = (Inr r, (run sample_fp sample_dg sample_derive failed_requests empty_ledger)
                 \<lparr>verification_records :=
                    verification_records
                      (run sample_fp sample_dg sample_derive failed_requests empty_ledger) @ [r]\<rparr>)
          \<and> \<not> is_authentic r \<and> \<not> blockchain_verified r \<and> confidence_score r = 0
          \<and> analysis_details r = UnknownMedia)"
proof -
  have a: "sample_hash = sample_fp sample_content"
    by (simp add: sample_hash_def sample_fp_def sample_content_def)
  have b: "sample_hash
             \<notin> set (ingested sample_fp sample_dg sample_derive failed_requests empty_ledger)"
    unfolding failed_run_ingested by (simp add: sample_hash_def)
  from verify_never_submitted [OF valid_sample_hash b, of sample_env] valid_sample_hash a b
  show ?thesis by blast
qed

text \<open>
  Claim C5. In every ledger and for every hash, \<open>verify\<close> leaves the media records and
  the Anchor Log as they are; when it returns a record its only write is that record,
  appended to the verification records, and when it fails it writes nothing. Verifying a
  well-formed hash twice appends two records, the first one unchanged by the second call.
\<close>

theorem verify_is_audit_only:
  "media_records (snd (verify dg derive env h s)) = media_records s
   \<and> anchor_log (snd (verify dg derive env h s)) = anchor_log s
   \<and> (case fst (verify dg derive env h s) of
        Inr r \<Rightarrow> snd (verify dg derive env h s)
                  = s\<lparr>verification_records := verification_records s @ [r]\<rparr>
      | Inl err \<Rightarrow> snd (verify dg derive env h s) = s)
   \<and> (valid_hash h \<longrightarrow>
        (\<exists>r1 r2. fst (verify dg derive env h s) = Inr r1
           \<and> fst (verify dg derive env' h (snd (verify dg derive env h s))) = Inr r2
           \<and> snd (verify dg derive env' h (snd (verify dg derive env h s)))
               = s\<lparr>verification_records := verification_records s @ [r1, r2]\<rparr>))"
  by (simp add: verify_def Let_def)

theorem verify_is_audit_only_witness:
  "valid_hash sample_hash
   \<and> media_records (snd (verify sample_dg sample_derive sample_env sample_hash sample_ledger))
       = [sample_media]
   \<and> anchor_log (snd (verify sample_dg sample_derive sample_env sample_hash sample_ledger))
       = [sample_anchor]
   \<and> (\<exists>r1 r2.
         fst (verify sample_dg sample_derive sample_env sample_hash sample_ledger) = Inr r1
       \<and> snd (verify sample_dg sample_derive failing_env sample_hash
            (snd (verify sample_dg sample_derive sample_env sample_hash sample_ledger)))
           = sample_ledger\<lparr>verification_records := [r1, r2]\<rparr>)"
proof -
  have v: "verification_records sample_ledger = []"
       "media_records sample_ledger = [sample_media]"
       "anchor_log sample_ledger = [sample_anchor]"
    by (simp_all add: sample_ledger_def)
  from verify_is_audit_only [of sample_dg sample_derive sample_env sample_hash sample_ledger
      failing_env] valid_sample_hash
  show ?thesis unfolding v by auto
qed

section \<open>Properties of the client\<close>

lemma js_append: "js (a @ b) = js a @ js b"
  by (simp add: js_def)

lemma dropWhile_Nil_list_all: "dropWhile P xs = [] \<longleftrightarrow> list_all P xs"
  by (induction xs) simp_all

lemma list_all_dropWhile: "list_all P (dropWhile P xs) \<longleftrightarrow> list_all P xs"
  by (induction xs) simp_all

text \<open>\<open>trim\<close> leaves nothing exactly when the string is empty or all whitespace.\<close>

lemma trim_empty_iff: "trim h = [] \<longleftrightarrow> list_all isWhiteSpace h"
proof -
  have "trim h = [] \<longleftrightarrow> dropWhile isWhiteSpace (rev (dropWhile isWhiteSpace h)) = []"
    by (simp only: trim_def rev_is_Nil_conv)
  also have "\<dots> \<longleftrightarrow> list_all isWhiteSpace (rev (dropWhile isWhiteSpace h))"
    by (rule dropWhile_Nil_list_all)
  also have "\<dots> \<longleftrightarrow> list_all isWhiteSpace (dropWhile isWhiteSpace h)"
    by (simp only: list_all_rev)
  also have "\<dots> \<longleftrightarrow> list_all isWhiteSpace h"
    by (rule list_all_dropWhile)
  finally show ?thesis .
qed

lemma posts_fetchVerifications: "filter is_post (snd (fetchVerifications backend got s)) = []"
  by (simp add: fetchVerifications_def split: outcome.splits)

lemma posts_fetchMedia: "filter is_post (snd (fetchMedia backend got s)) = []"
  by (simp add: fetchMedia_def split: outcome.splits)

lemma posts_report_failure: "filter is_post (report_failure toStr label prefix err) = []"
  by (simp add: report_failure_def split: option.splits)

lemma verificationResult_fetchVerifications:
  "verificationResult (fst (fetchVerifications backend got s)) = verificationResult s"
  by (simp add: fetchVerifications_def split: outcome.splits)

lemma sample_state_trim: "trim (verifyHash sample_state) = js ''ab12''"
  by (simp add: sample_state_def initial_state_def trim_def js_def isWhiteSpace_def)

text \<open>
  With a non-empty string \<open>detail\<close> in the error response, the text the handlers append to
  their prefix is that string.
\<close>

lemma error_detail_string:
  assumes "response err = Some dat" and "getProp dat (js ''detail'') = JStr d" and "d \<noteq> []"
  shows "error_detail toStr err = Some d"
  using assms by (simp add: error_detail_def)

text \<open>
  Claim C6, as amended. When an upload or a hash verification fails and the error response
  carries a non-empty string \<open>detail\<close>, the one error toast shown is the handler's fixed
  prefix (\<open>Upload failed: \<close> or \<open>Verification failed: \<close>) followed by that detail,
  unchanged.
\<close>

theorem error_detail_shown_after_prefix:
  assumes "response err = Some dat" and "getProp dat (js ''detail'') = JStr d" and "d \<noteq> []"
  shows "error_toasts (snd (handleFileUpload backend toStr (file # rest) (Rejected err) got s))
           = [js ''Upload failed: '' @ d]
       \<and> (trim (verifyHash s) \<noteq> [] \<longrightarrow>
            error_toasts (snd (handleHashVerification backend toStr (Rejected err) got s))
              = [js ''Verification failed: '' @ d])"
  using error_detail_string [OF assms, of toStr]
  by (simp add: handleFileUpload_def handleHashVerification_def report_failure_def Let_def)

theorem error_detail_shown_after_prefix_witness:
  "response sample_error = Some (JObj [(js ''detail'', JStr (js ''Unsupported media type''))])
   \<and> getProp (JObj [(js ''detail'', JStr (js ''Unsupported media type''))]) (js ''detail'')
       = JStr (js ''Unsupported media type'')
   \<and> js ''Unsupported media type'' \<noteq> []
   \<and> trim (verifyHash sample_state) \<noteq> []
   \<and> error_toasts (snd (handleFileUpload sample_backend sample_toString [sample_file]
         (Rejected sample_error) (Resolved (JArr [])) sample_state))
       = [js ''Upload failed: Unsupported media type'']
   \<and> error_toasts (snd (handleHashVerification sample_backend sample_toString
         (Rejected sample_error) (Resolved (JArr [])) sample_state))
       = [js ''Verification failed: Unsupported media type'']"
proof -
  have a: "response sample_error
             = Some (JObj [(js ''detail'', JStr (js ''Unsupported media type''))])"
    by (simp add: sample_error_def)
  have b: "getProp (JObj [(js ''detail'', JStr (js ''Unsupported media type''))]) (js ''detail'')
             = JStr (js ''Unsupported media type'')"
    by simp
  have c: "js ''Unsupported media type'' \<noteq> []"
    by (simp add: js_def)
  have d: "trim (verifyHash sample_state) \<noteq> []"
    by (simp add: sample_state_trim js_def)
  from error_detail_shown_after_prefix [OF a b c, of sample_backend sample_toString sample_file "[]"
      "Resolved (JArr [])" sample_state] a b c d
  show ?thesis by (simp add: js_def)
qed

text \<open>
  Claim C6 as stated fails: the toast is not the detail itself. The handlers put their
  prefix before it, and an empty detail is replaced by the error's own message.
\<close>

theorem detail_shown_verbatim_counterexample:
  "error_toasts (snd (handleFileUpload sample_backend sample_toString [sample_file]
      (Rejected sample_error) (Resolved (JArr [])) initial_state))
     \<noteq> [js ''Unsupported media type'']
   \<and> error_toasts (snd (handleHashVerification sample_backend sample_toString
        (Rejected sample_error) (Resolved (JArr [])) sample_state))
     \<noteq> [js ''Unsupported media type'']
   \<and> error_toasts (snd (handleFileUpload sample_backend sample_toString [sample_file]
        (Rejected empty_detail_error) (Resolved (JArr [])) initial_state))
     = [js ''Upload failed: Request failed with status code 500'']"
  by (simp add: handleFileUpload_def handleHashVerification_def report_failure_def Let_def
      error_detail_def sample_error_def empty_detail_error_def sample_state_trim js_def)

lemma plain_not_delim: "isPlainChar c \<Longrightarrow> c \<notin> set (js ''?#'')"
  by (auto simp: isPlainChar_def js_def)

lemma host_not_delim: "isHostChar c \<Longrightarrow> c \<notin> set (js ''/?#'')"
  by (auto simp: isHostChar_def isPlainChar_def js_def)

lemma takeWhile_all: "list_all P xs \<Longrightarrow> takeWhile P xs = xs"
  by (induction xs) simp_all

lemma dropWhile_host:
  assumes "list_all isHostChar host"
  shows "dropWhile (\<lambda>c. c \<notin> set (js ''/?#'')) (host @ js ''/api/verify/'' @ h)
           = js ''/api/verify/'' @ h"
proof -
  from assms have "\<forall>c\<in>set host. c \<notin> set (js ''/?#'')"
    by (auto simp: list_all_iff dest: host_not_delim)
  then have "dropWhile (\<lambda>c. c \<notin> set (js ''/?#'')) (host @ js ''/api/verify/'' @ h)
           = dropWhile (\<lambda>c. c \<notin> set (js ''/?#'')) (js ''/api/verify/'' @ h)"
    by (simp add: dropWhile_append2)
  then show ?thesis by (simp add: js_def)
qed

lemma takeWhile_plain:
  assumes "list_all isPlainChar h"
  shows "takeWhile (\<lambda>c. c \<notin> set (js ''?#'')) (js ''/api/verify/'' @ h) = js ''/api/verify/'' @ h"
proof (rule takeWhile_all)
  from assms have "list_all (\<lambda>c. c \<notin> set (js ''?#'')) h"
    by (auto simp: list_all_iff dest: plain_not_delim)
  then show "list_all (\<lambda>c. c \<notin> set (js ''?#'')) (js ''/api/verify/'' @ h)"
    by (simp add: js_def)
qed

lemma url_path_http:
  assumes "list_all isHostChar host" and "list_all isPlainChar h"
  shows "url_path (js ''http://'' @ host @ js ''/api/verify/'' @ h) = js ''/api/verify/'' @ h"
proof -
  have s: "takeWhile (\<lambda>c. c \<notin> set (js '':/?#'')) (js ''http://'' @ t) = js ''http''" for t
    by (simp add: js_def)
  have l: "length (js ''http'') = 4" by (simp add: js_def)
  have d: "drop (Suc 4) (js ''http://'' @ t) = js ''//'' @ t"
       "take 1 (drop 4 (js ''http://'' @ t)) = js '':''"
       "take 2 (js ''//'' @ t) = js ''//''" "drop 2 (js ''//'' @ t) = t"
       "js ''http'' \<noteq> []" for t
    by (simp_all add: js_def)
  show ?thesis
    unfolding url_path_def Let_def s l
    by (simp only: d if_True simp_thms dropWhile_host [OF assms(1)] takeWhile_plain [OF assms(2)])
qed

lemma url_path_https:
  assumes "list_all isHostChar host" and "list_all isPlainChar h"
  shows "url_path (js ''https://'' @ host @ js ''/api/verify/'' @ h) = js ''/api/verify/'' @ h"
proof -
  have s: "takeWhile (\<lambda>c. c \<notin> set (js '':/?#'')) (js ''https://'' @ t) = js ''https''" for t
    by (simp add: js_def)
  have l: "length (js ''https'') = 5" by (simp add: js_def)
  have d: "drop (Suc 5) (js ''https://'' @ t) = js ''//'' @ t"
       "take 1 (drop 5 (js ''https://'' @ t)) = js '':''"
       "take 2 (js ''//'' @ t) = js ''//''" "drop 2 (js ''//'' @ t) = t"
       "js ''https'' \<noteq> []" for t
    by (simp_all add: js_def)
  show ?thesis
    unfolding url_path_def Let_def s l
    by (simp only: d if_True simp_thms dropWhile_host [OF assms(1)] takeWhile_plain [OF assms(2)])
qed

text \<open>For an origin and a hash of plain characters the path is the one of the API.\<close>

lemma url_path_origin:
  assumes "isOrigin b" and "list_all isPlainChar h"
  shows "url_path (b @ js ''/api/verify/'' @ h) = js ''/api/verify/'' @ h"
proof (cases "take 7 b = js ''http://''")
  case True
  then have b: "b = js ''http://'' @ drop 7 b"
    by (metis append_take_drop_id)
  from assms(1) True have "list_all isHostChar (drop 7 b)"
    by (simp add: isOrigin_def Let_def)
  from url_path_http [OF this assms(2)] b show ?thesis
    by (metis append_assoc)
next
  case False
  with assms(1) have t: "take 8 b = js ''https://''" and h: "list_all isHostChar (drop 8 b)"
    by (auto simp: isOrigin_def Let_def split: if_splits)
  from t have b: "b = js ''https://'' @ drop 8 b"
    by (metis append_take_drop_id)
  from url_path_https [OF h assms(2)] b show ?thesis
    by (metis append_assoc)
qed

lemma post_paths_append: "post_paths (xs @ ys) = post_paths xs @ post_paths ys"
  by (induction xs rule: post_paths.induct) simp_all

lemma post_paths_fetchVerifications: "post_paths (snd (fetchVerifications backend got s)) = []"
  by (simp add: fetchVerifications_def split: outcome.splits)

lemma post_paths_report_failure: "post_paths (report_failure toStr label prefix err) = []"
  by (simp add: report_failure_def split: option.splits)

lemma state_fetchVerifications:
  "fst (fetchVerifications backend got s)
     = s\<lparr>verifications := (case got of Resolved g \<Rightarrow> g | Rejected err \<Rightarrow> verifications s)\<rparr>"
  by (simp add: fetchVerifications_def split: outcome.splits)

lemma sample_post_paths:
  "post_paths (snd (handleHashVerification sample_backend sample_toString
      (Resolved sample_verification) (Resolved (JArr [])) query_state))
     = [js ''/api/verify/ab12'']"
  by (simp add: handleHashVerification_def Let_def fetchVerifications_def query_state_def
      initial_state_def trim_def isWhiteSpace_def API_def sample_backend_def url_path_def js_def)

text \<open>
  Claim C7, as amended. For a hash input that is non-empty after trimming, the
  verification handler issues exactly one POST, with no body, whose URL is the backend URL
  followed by \<open>/api/verify/\<close> and the trimmed input, inserted as typed, without encoding.
  When the backend URL is an origin and the trimmed input is made of letters, digits,
  \<open>-\<close> and \<open>_\<close> (as every hex digest is), the path of that request is \<open>/api/verify/\<close>
  followed by the trimmed input. When the request succeeds the response becomes the
  verification result, and the verdict card shows it, titled by its \<open>is_authentic\<close>
  field, exactly when the Verify tab is active, the two lists and the card build without
  an error, and the card can be mounted.
\<close>

theorem handleHashVerification_posts_once:
  assumes "trim (verifyHash s) \<noteq> []"
  shows "filter is_post (snd (handleHashVerification backend toStr posted got s))
           = [AxiosPost (backend @ js ''/api/verify/'' @ trim (verifyHash s)) NoBody []]
       \<and> (isOrigin backend \<and> list_all isPlainChar (trim (verifyHash s)) \<longrightarrow>
            post_paths (snd (handleHashVerification backend toStr posted got s))
              = [js ''/api/verify/'' @ trim (verifyHash s)])
       \<and> verificationResult (fst (handleHashVerification backend toStr (Resolved d) got s)) = d
       \<and> verdictTitle (fst (handleHashVerification backend toStr (Resolved d) got s))
           = (if listBuilds fileRowBuilds (uploadedFiles s)
                 \<and> listBuilds verificationRowBuilds
                      (case got of Resolved g \<Rightarrow> g | Rejected err \<Rightarrow> verifications s)
                 \<and> activeTab s = js ''verify''
                 \<and> truthy d \<and> cardBuilds d \<and> cardMounts d
              then Some (if truthy (getProp d (js ''is_authentic''))
                         then js ''Authentic Media'' else js ''Suspicious Media'')
              else None)"
proof -
  have u: "API backend @ js ''/verify/'' @ h = backend @ js ''/api/verify/'' @ h" for h
    by (simp add: API_def js_def)
  have p: "filter is_post (snd (handleHashVerification backend toStr posted got s))
           = [AxiosPost (backend @ js ''/api/verify/'' @ trim (verifyHash s)) NoBody []]"
    using assms
    by (cases posted)
       (simp_all add: handleHashVerification_def Let_def u posts_fetchVerifications
          posts_report_failure case_prod_beta)
  have q: "post_paths (snd (handleHashVerification backend toStr posted got s))
           = [url_path (backend @ js ''/api/verify/'' @ trim (verifyHash s))]"
    using assms
    by (cases posted)
       (simp_all add: handleHashVerification_def Let_def u post_paths_append
          post_paths_fetchVerifications post_paths_report_failure case_prod_beta)
  have f: "fst (handleHashVerification backend toStr (Resolved d) got s)
           = s\<lparr>loading := False, verificationResult := d,
                verifications := (case got of Resolved g \<Rightarrow> g | Rejected err \<Rightarrow> verifications s)\<rparr>"
    using assms
    by (cases got)
       (simp_all add: handleHashVerification_def Let_def case_prod_beta fetchVerifications_def)
  have t: "verdictTitle (fst (handleHashVerification backend toStr (Resolved d) got s))
           = (if listBuilds fileRowBuilds (uploadedFiles s)
                 \<and> listBuilds verificationRowBuilds
                      (case got of Resolved g \<Rightarrow> g | Rejected err \<Rightarrow> verifications s)
                 \<and> activeTab s = js ''verify''
                 \<and> truthy d \<and> cardBuilds d \<and> cardMounts d
              then Some (if truthy (getProp d (js ''is_authentic''))
                         then js ''Authentic Media'' else js ''Suspicious Media'')
              else None)"
    unfolding f by (auto simp: verdictTitle_def appBuilds_def)
  from p q t show ?thesis
    by (simp add: f url_path_origin)
qed

theorem handleHashVerification_posts_once_witness:
  "trim (verifyHash sample_state) \<noteq> []
   \<and> isOrigin sample_backend
   \<and> list_all isPlainChar (trim (verifyHash sample_state))
   \<and> filter is_post (snd (handleHashVerification sample_backend sample_toString
        (Resolved sample_verification) (Resolved (JArr [sample_verification])) sample_state))
       = [AxiosPost (js ''http://localhost:8001/api/verify/ab12'') NoBody []]
   \<and> post_paths (snd (handleHashVerification sample_backend sample_toString
        (Resolved sample_verification) (Resolved (JArr [sample_verification])) sample_state))
       = [js ''/api/verify/ab12'']
   \<and> verificationResult (fst (handleHashVerification sample_backend sample_toString
        (Resolved sample_verification) (Resolved (JArr [sample_verification])) sample_state))
       = sample_verification
   \<and> verdictTitle (fst (handleHashVerification sample_backend sample_toString
        (Resolved sample_verification) (Resolved (JArr [sample_verification])) sample_state))
       = Some (js ''Suspicious Media'')"
proof -
  have a: "trim (verifyHash sample_state) \<noteq> []"
    by (simp add: sample_state_trim js_def)
  have b: "isOrigin sample_backend"
    by (simp add: isOrigin_def sample_backend_def isHostChar_def isPlainChar_def js_def)
  have c: "list_all isPlainChar (trim (verifyHash sample_state))"
    by (simp add: sample_state_trim isPlainChar_def js_def)
  have d: "listBuilds fileRowBuilds (uploadedFiles sample_state)"
       "listBuilds verificationRowBuilds (JArr [sample_verification])"
       "activeTab sample_state = js ''verify''"
       "truthy sample_verification" "cardBuilds sample_verification"
       "cardMounts sample_verification"
       "\<not> truthy (getProp sample_verification (js ''is_authentic''))"
    by (simp_all add: sample_state_def initial_state_def listBuilds_def
        verificationRowBuilds_def cardBuilds_def cardMounts_def sample_verification_def js_def)
  from handleHashVerification_posts_once [OF a, of sample_backend sample_toString
      "Resolved sample_verification" "Resolved (JArr [sample_verification])"
      sample_verification] a b c d
  show ?thesis by (simp add: sample_state_trim sample_backend_def js_def)
qed

text \<open>
  Claim C7 as stated fails. A trimmed input with a \<open>?\<close> is sent to another path: what
  follows the \<open>?\<close> becomes the query. And a returned record is not always displayed:
  nothing is shown when the history request answers with a body that is not an array, or
  when the record's \<open>risk_level\<close> is not a string.
\<close>

theorem hash_as_path_counterexample:
  "trim (verifyHash query_state) = js ''ab12?x=1''
   \<and> post_paths (snd (handleHashVerification sample_backend sample_toString
        (Resolved sample_verification) (Resolved (JArr [])) query_state))
       \<noteq> [js ''/api/verify/'' @ trim (verifyHash query_state)]
   \<and> verdictTitle (fst (handleHashVerification sample_backend sample_toString
        (Resolved sample_verification) (Resolved error_body) sample_state)) = None
   \<and> verdictTitle (fst (handleHashVerification sample_backend sample_toString
        (Resolved list_risk_verification) (Resolved (JArr [])) sample_state)) = None"
proof -
  have a: "trim (verifyHash query_state) = js ''ab12?x=1''"
    by (simp add: query_state_def initial_state_def trim_def js_def isWhiteSpace_def)
  have b: "verdictTitle (fst (handleHashVerification sample_backend sample_toString
        (Resolved sample_verification) (Resolved error_body) sample_state)) = None"
    by (simp add: handleHashVerification_def Let_def case_prod_beta state_fetchVerifications
        sample_state_trim verdictTitle_def appBuilds_def listBuilds_def error_body_def js_def)
  have c: "verdictTitle (fst (handleHashVerification sample_backend sample_toString
        (Resolved list_risk_verification) (Resolved (JArr [])) sample_state)) = None"
    by (simp add: handleHashVerification_def Let_def case_prod_beta state_fetchVerifications
        sample_state_trim verdictTitle_def appBuilds_def listBuilds_def cardBuilds_def
        list_risk_verification_def js_def)
  show ?thesis unfolding sample_post_paths a using a b c by (simp add: js_def)
qed

text \<open>
  Claim C8. For a selected file, the upload handler issues one POST to \<open>/api/upload\<close>
  whose body is form data holding that file under the field name \<open>file\<close>, sent as
  \<open>multipart/form-data\<close>.
\<close>

theorem handleFileUpload_posts_file:
  "filter is_post (snd (handleFileUpload backend toStr (file # rest) posted got s))
     = [AxiosPost (backend @ js ''/api/upload'') (FormData [(js ''file'', file)])
          [(js ''Content-Type'', js ''multipart/form-data'')]]"
proof -
  have u: "API backend @ js ''/upload'' = backend @ js ''/api/upload''"
    by (simp add: API_def js_def)
  show ?thesis
    by (cases posted)
       (simp_all add: handleFileUpload_def Let_def u posts_fetchMedia posts_report_failure
          case_prod_beta)
qed

theorem handleFileUpload_posts_file_witness:
  "filter is_post (snd (handleFileUpload sample_backend sample_toString [sample_file]
      (Rejected sample_error) (Resolved (JArr [])) initial_state))
     = [AxiosPost (js ''http://localhost:8001/api/upload'')
          (FormData [(js ''file'', sample_file)])
          [(js ''Content-Type'', js ''multipart/form-data'')]]"
  using handleFileUpload_posts_file [of sample_backend sample_toString sample_file "[]"
      "Rejected sample_error" "Resolved (JArr [])" initial_state]
  by (simp add: sample_backend_def js_def)

text \<open>
  Claim C9. A click on the Test button sets the displayed verification result to a fixed
  record with \<open>is_authentic = true\<close>, \<open>confidence_score = 0.95\<close>,
  \<open>blockchain_verified = true\<close> and risk level \<open>low\<close>, and issues no request. The
  verdict card then reads "Authentic Media" in every state in which the button can be
  clicked: the Verify tab is active and the two lists of the component build.
\<close>

theorem testButtonClick_fixed_result:
  "verificationResult (fst (testButtonClick s)) = testResult
   \<and> getProp testResult (js ''is_authentic'') = JBool True
   \<and> getProp testResult (js ''confidence_score'') = JNum 0.95
   \<and> getProp testResult (js ''blockchain_verified'') = JBool True
   \<and> getProp (getProp testResult (js ''analysis_details'')) (js ''risk_level'')
       = JStr (js ''low'')
   \<and> filter is_request (snd (testButtonClick s)) = []
   \<and> verdictTitle (fst (testButtonClick s))
       = (if activeTab s = js ''verify'' \<and> listBuilds fileRowBuilds (uploadedFiles s)
             \<and> listBuilds verificationRowBuilds (verifications s)
          then Some (js ''Authentic Media'') else None)"
proof -
  have c: "truthy testResult" "cardBuilds testResult" "cardMounts testResult"
          "truthy (getProp testResult (js ''is_authentic''))"
    by (simp_all add: testResult_def cardBuilds_def cardMounts_def js_def)
  have t: "verdictTitle (fst (testButtonClick s))
       = (if activeTab s = js ''verify'' \<and> listBuilds fileRowBuilds (uploadedFiles s)
             \<and> listBuilds verificationRowBuilds (verifications s)
          then Some (js ''Authentic Media'') else None)"
    using c by (auto simp: testButtonClick_def verdictTitle_def appBuilds_def)
  have r: "verificationResult (fst (testButtonClick s)) = testResult
     \<and> filter is_request (snd (testButtonClick s)) = []"
    by (simp add: testButtonClick_def)
  have g: "getProp testResult (js ''is_authentic'') = JBool True
     \<and> getProp testResult (js ''confidence_score'') = JNum 0.95
     \<and> getProp testResult (js ''blockchain_verified'') = JBool True
     \<and> getProp (getProp testResult (js ''analysis_details'')) (js ''risk_level'')
         = JStr (js ''low'')"
    by (simp add: testResult_def js_def)
  from r g t show ?thesis by simp
qed

theorem testButtonClick_fixed_result_witness:
  "verificationResult (fst (testButtonClick blank_state)) = testResult
   \<and> filter is_request (snd (testButtonClick blank_state)) = []
   \<and> verdictTitle (fst (testButtonClick blank_state)) = Some (js ''Authentic Media'')"
proof -
  have a: "activeTab blank_state = js ''verify''"
       "listBuilds fileRowBuilds (uploadedFiles blank_state)"
       "listBuilds verificationRowBuilds (verifications blank_state)"
    by (simp_all add: blank_state_def initial_state_def listBuilds_def)
  from testButtonClick_fixed_result [of blank_state] a show ?thesis by simp
qed

text \<open>
  Claim C10. For a hash input that is empty or all whitespace, the verification handler
  issues no request, leaves the component state (so the displayed result) as it was, and
  shows one toast, the error asking for a hash; the Verify button is disabled.
\<close>

theorem empty_hash_no_request:
  assumes "list_all isWhiteSpace (verifyHash s)"
  shows "fst (handleHashVerification backend toStr posted got s) = s
       \<and> filter is_request (snd (handleHashVerification backend toStr posted got s)) = []
       \<and> filter is_toast (snd (handleHashVerification backend toStr posted got s))
           = [ToastError (js ''Please enter a hash to verify'')]
       \<and> verifyButtonDisabled s"
  using assms
  by (simp add: handleHashVerification_def Let_def verifyButtonDisabled_def trim_empty_iff)

theorem empty_hash_no_request_witness:
  "list_all isWhiteSpace (verifyHash blank_state)
   \<and> fst (handleHashVerification sample_backend sample_toString (Resolved sample_verification)
        (Resolved (JArr [])) blank_state) = blank_state
   \<and> filter is_request (snd (handleHashVerification sample_backend sample_toString
        (Resolved sample_verification) (Resolved (JArr [])) blank_state)) = []
   \<and> verifyButtonDisabled blank_state"
proof -
  have a: "list_all isWhiteSpace (verifyHash blank_state)"
    by (simp add: blank_state_def initial_state_def isWhiteSpace_def)
  from empty_hash_no_request [OF a, of sample_backend sample_toString
      "Resolved sample_verification" "Resolved (JArr [])"] a
  show ?thesis by simp
qed

end
